theory Spec2Isabelle
  imports Main "HOL-Library.Sublist"
begin

section \<open>Data model\<close>

text \<open>
  The columns of the \<^verbatim>\<open>comments\<close> table (migration, \<^verbatim>\<open>CREATE TABLE comments\<close>) and
  the \<^verbatim>\<open>Comment\<close> interface of the hook \<^verbatim>\<open>useComments\<close>. Identifiers are the text
  of a uuid, as the client sees them (\<^verbatim>\<open>id: string\<close>); \<^verbatim>\<open>parent_id\<close> is
  \<^verbatim>\<open>string | null\<close>. The field \<^verbatim>\<open>id\<close> is written \<open>id'\<close>, since \<open>id\<close> is the identity
  function of HOL. Timestamps (\<^verbatim>\<open>timestamptz\<close>) are points on a discrete time line; only
  their order is used (\<^verbatim>\<open>.order('created_at', { ascending: true })\<close>).
\<close>

record comment_row =
  id' :: string
  post_id :: string
  author_id :: string
  parent_id :: "string option"
  content :: string
  likes_count :: int
  created_at :: nat
  updated_at :: nat

text \<open>The joined columns \<^verbatim>\<open>profiles (full_name, email, avatar_url)\<close> of the select.\<close>

record profile =
  full_name :: "string option"
  email :: string
  avatar_url :: "string option"

text \<open>
  A fetched comment: the row and the embedded profile (PostgREST yields \<^verbatim>\<open>null\<close> when no
  profile row matches).
\<close>

record comment = comment_row +
  profiles :: "profile option"

text \<open>
  JavaScript truthiness of a value of type \<^verbatim>\<open>string | null\<close> (also \<^verbatim>\<open>string | undefined\<close>):
  \<^verbatim>\<open>null\<close>, \<^verbatim>\<open>undefined\<close> and the empty string are falsy.
\<close>

definition truthy :: "string option \<Rightarrow> bool" where
  "truthy s = (case s of None \<Rightarrow> False | Some t \<Rightarrow> t \<noteq> [])"

section \<open>The tree construction of \<^verbatim>\<open>fetchComments\<close>\<close>

text \<open>
  The code builds a graph of mutable objects: the first \<^verbatim>\<open>forEach\<close> creates one object
  \<^verbatim>\<open>{ ...comment, replies: [] }\<close> per input row, stores a reference to it in
  \<^verbatim>\<open>commentMap\<close> under \<^verbatim>\<open>comment.id\<close> and pushes the reference on \<^verbatim>\<open>rootComments\<close>
  when \<^verbatim>\<open>!comment.parent_id\<close>; the second \<^verbatim>\<open>forEach\<close> pushes references on the
  \<^verbatim>\<open>replies\<close> arrays of the objects found in the map. References are modelled as
  addresses into a heap of objects (a list; the object created for the \<open>i\<close>-th row gets
  address \<open>i\<close>), so that sharing and cycles are what they are in the code.
\<close>

record node =
  comment_of :: comment
  replies :: "nat list"

record build =
  heap :: "node list"
  commentMap :: "string \<rightharpoonup> nat"
  rootComments :: "nat list"

text \<open>The result handed to \<^verbatim>\<open>setComments\<close>: the root array, with the objects it refers to.\<close>

record forest =
  objects :: "node list"
  roots :: "nat list"

definition empty_build :: build where
  "empty_build = \<lparr>heap = [], commentMap = Map.empty, rootComments = []\<rparr>"

text \<open>
  Body of the first \<^verbatim>\<open>data?.forEach\<close>:
  \<^verbatim>\<open>const commentWithReplies = { ...comment, replies: [] };
  commentMap.set(comment.id, commentWithReplies);
  if (!comment.parent_id) { rootComments.push(commentWithReplies); }\<close>
\<close>

definition index_comment :: "comment \<Rightarrow> build \<Rightarrow> build" where
  "index_comment c s =
     (let a = length (heap s) in
      \<lparr>heap = heap s @ [\<lparr>comment_of = c, replies = []\<rparr>],
       commentMap = (commentMap s)(id' c \<mapsto> a),
       rootComments = (if \<not> truthy (parent_id c) then rootComments s @ [a] else rootComments s)\<rparr>)"

text \<open>\<^verbatim>\<open>parent.replies!.push(child)\<close> on the object at address \<open>pa\<close>.\<close>

definition push_reply :: "nat \<Rightarrow> nat \<Rightarrow> node list \<Rightarrow> node list" where
  "push_reply pa ca h = h[pa := (h ! pa)\<lparr>replies := replies (h ! pa) @ [ca]\<rparr>]"

text \<open>
  Body of the second \<^verbatim>\<open>data?.forEach\<close>:
  \<^verbatim>\<open>if (comment.parent_id) {
    const parent = commentMap.get(comment.parent_id);
    if (parent) { parent.replies!.push(commentMap.get(comment.id)!); } }\<close>
  An object is always truthy, so \<^verbatim>\<open>if (parent)\<close> tests that the key was found. The
  lookup \<^verbatim>\<open>commentMap.get(comment.id)!\<close> cannot miss, since the first pass stored every
  id (lemma \<open>commentMap_index_Some\<close> below); the branch is there to keep the function total.
\<close>

definition attach_comment :: "comment \<Rightarrow> build \<Rightarrow> build" where
  "attach_comment c s =
     (if truthy (parent_id c) then
        (case parent_id c of
           None \<Rightarrow> s
         | Some p \<Rightarrow>
             (case commentMap s p of
                None \<Rightarrow> s
              | Some pa \<Rightarrow>
                  (case commentMap s (id' c) of
                     None \<Rightarrow> s
                   | Some ca \<Rightarrow> s\<lparr>heap := push_reply pa ca (heap s)\<rparr>)))
      else s)"

definition buildTree :: "comment list \<Rightarrow> forest" where
  "buildTree flatComments =
     (let s1 = fold index_comment flatComments empty_build;
          s2 = fold attach_comment flatComments s1
      in \<lparr>objects = heap s2, roots = rootComments s2\<rparr>)"

text \<open>The comments a list of references stands for.\<close>

definition deref :: "forest \<Rightarrow> nat list \<Rightarrow> comment list" where
  "deref t as = map (\<lambda>a. comment_of (objects t ! a)) as"

definition root_list :: "forest \<Rightarrow> comment list" where
  "root_list t = deref t (roots t)"

definition children :: "forest \<Rightarrow> nat \<Rightarrow> comment list" where
  "children t a = deref t (replies (objects t ! a))"

section \<open>The hook \<^verbatim>\<open>useComments\<close>\<close>

text \<open>
  The hook talks to the backend through the query builder of the client library. Every
  request resolves to a pair \<^verbatim>\<open>{ data, error }\<close>; a rejected or failed request is reported
  in \<^verbatim>\<open>error\<close> and is not thrown (which is why the code tests
  \<^verbatim>\<open>if (error) throw error\<close>). The backend is a parameter of the model: a state \<open>'s\<close> and
  one function for each request the hook issues, so that the theorems about the hook hold
  for every behaviour of the store. \<open>auth_getUser\<close> is \<^verbatim>\<open>supabase.auth.getUser()\<close>, reduced
  to the id of the user it reports (\<^verbatim>\<open>userData.user.id\<close>), \<open>None\<close> for \<^verbatim>\<open>user: null\<close>.
\<close>

datatype pg_error = PostgrestError string

record 'a response =
  data :: "'a option"
  error :: "pg_error option"

record 's backend =
  auth_getUser :: "'s \<Rightarrow> string option"
  select_comments :: "string \<Rightarrow> 's \<Rightarrow> comment list response \<times> 's"
  insert_comment :: "string \<Rightarrow> string \<Rightarrow> string option \<Rightarrow> string \<Rightarrow> 's \<Rightarrow> pg_error option \<times> 's"
  delete_comment :: "string \<Rightarrow> 's \<Rightarrow> pg_error option \<times> 's"
  select_like_single :: "string \<Rightarrow> string \<Rightarrow> 's \<Rightarrow> string response \<times> 's"
  delete_like :: "string \<Rightarrow> 's \<Rightarrow> pg_error option \<times> 's"
  insert_like :: "string \<Rightarrow> string \<Rightarrow> 's \<Rightarrow> pg_error option \<times> 's"

text \<open>
  The requests sent to the store, recorded in the order they are issued:
  \<^item> \<open>SelectComments postId\<close>: \<^verbatim>\<open>from('comments').select(...).eq('post_id', postId).order('created_at')\<close>;
  \<^item> \<open>InsertComment post_id author_id parent_id content\<close>: \<^verbatim>\<open>from('comments').insert([...])\<close>;
  \<^item> \<open>DeleteComment commentId\<close>: \<^verbatim>\<open>from('comments').delete().eq('id', commentId)\<close>;
  \<^item> \<open>SelectLike comment_id user_id\<close>: \<^verbatim>\<open>from('comment_likes').select('id').eq(...).eq(...).single()\<close>;
  \<^item> \<open>DeleteLike id\<close>: \<^verbatim>\<open>from('comment_likes').delete().eq('id', existingLike.id)\<close>;
  \<^item> \<open>InsertLike comment_id user_id\<close>: \<^verbatim>\<open>from('comment_likes').insert([...])\<close>.
\<close>

datatype request =
    SelectComments string
  | InsertComment string string "string option" string
  | DeleteComment string
  | SelectLike string string
  | DeleteLike string
  | InsertLike string string

fun is_write :: "request \<Rightarrow> bool" where
  "is_write (SelectComments _) = False"
| "is_write (InsertComment _ _ _ _) = True"
| "is_write (DeleteComment _) = True"
| "is_write (SelectLike _ _) = False"
| "is_write (DeleteLike _) = True"
| "is_write (InsertLike _ _) = True"

text \<open>
  What an operation of the hook throws: \<^verbatim>\<open>new Error(message)\<close>, or the error object of a
  rejected request (\<^verbatim>\<open>if (error) throw error\<close>).
\<close>

datatype thrown = Error string | StoreError pg_error

abbreviation AuthenticationError :: thrown where
  "AuthenticationError \<equiv> Error ''Not authenticated''"

text \<open>
  The state an operation runs in: the store, the requests issued so far, and the three
  state variables of the hook (\<^verbatim>\<open>comments\<close>, \<^verbatim>\<open>loading\<close>, \<^verbatim>\<open>error\<close>; the last is
  written \<open>error_state\<close>).
\<close>

record 's world =
  store :: 's
  trace :: "request list"
  comments :: forest
  loading :: bool
  error_state :: "string option"

text \<open>\<^verbatim>\<open>parentId || null\<close>.\<close>

definition or_null :: "string option \<Rightarrow> string option" where
  "or_null s = (if truthy s then s else None)"

text \<open>
  \<^verbatim>\<open>fetchComments\<close>: returns at once when \<^verbatim>\<open>!postId\<close>; otherwise sets \<^verbatim>\<open>loading\<close>,
  selects, and either throws the error of the response into its own \<^verbatim>\<open>catch\<close>
  (\<^verbatim>\<open>setError('Failed to load comments')\<close>, nothing rethrown) or builds the tree from
  \<^verbatim>\<open>data\<close> (\<^verbatim>\<open>data?.forEach\<close> does nothing on \<^verbatim>\<open>null\<close>) and calls \<^verbatim>\<open>setComments\<close>;
  \<^verbatim>\<open>finally\<close> clears \<^verbatim>\<open>loading\<close>.
\<close>

definition fetchComments :: "'s backend \<Rightarrow> string option \<Rightarrow> 's world \<Rightarrow> 's world" where
  "fetchComments b postId w =
     (if truthy postId then
        (case postId of
           None \<Rightarrow> w
         | Some p \<Rightarrow>
             (let w1 = w\<lparr>loading := True\<rparr>;
                  res = select_comments b p (store w1);
                  w2 = w1\<lparr>store := snd res, trace := trace w1 @ [SelectComments p]\<rparr>
              in case error (fst res) of
                   Some e \<Rightarrow> w2\<lparr>loading := False, error_state := Some ''Failed to load comments''\<rparr>
                 | None \<Rightarrow>
                     w2\<lparr>comments := buildTree (case data (fst res) of None \<Rightarrow> [] | Some rows \<Rightarrow> rows),
                        loading := False\<rparr>))
      else w)"

text \<open>
  \<^verbatim>\<open>createComment(content, parentId?)\<close>. The test of \<^verbatim>\<open>postId\<close> comes first, outside the
  \<^verbatim>\<open>try\<close>; the \<^verbatim>\<open>catch\<close> logs and rethrows.
\<close>

definition createComment ::
  "'s backend \<Rightarrow> string option \<Rightarrow> string \<Rightarrow> string option \<Rightarrow> 's world \<Rightarrow> (thrown + unit) \<times> 's world" where
  "createComment b postId content' parentId w =
     (if truthy postId then
        (case postId of
           None \<Rightarrow> (Inl (Error ''No post ID provided''), w)
         | Some p \<Rightarrow>
             (case auth_getUser b (store w) of
                None \<Rightarrow> (Inl (Error ''Not authenticated''), w)
              | Some uid \<Rightarrow>
                  (let res = insert_comment b p uid (or_null parentId) content' (store w);
                       w1 = w\<lparr>store := snd res,
                              trace := trace w @ [InsertComment p uid (or_null parentId) content']\<rparr>
                   in case fst res of
                        Some e \<Rightarrow> (Inl (StoreError e), w1)
                      | None \<Rightarrow> (Inr (), fetchComments b postId w1))))
      else (Inl (Error ''No post ID provided''), w))"

definition deleteComment ::
  "'s backend \<Rightarrow> string option \<Rightarrow> string \<Rightarrow> 's world \<Rightarrow> (thrown + unit) \<times> 's world" where
  "deleteComment b postId commentId w =
     (let res = delete_comment b commentId (store w);
          w1 = w\<lparr>store := snd res, trace := trace w @ [DeleteComment commentId]\<rparr>
      in case fst res of
           Some e \<Rightarrow> (Inl (StoreError e), w1)
         | None \<Rightarrow> (Inr (), fetchComments b postId w1))"

text \<open>
  \<^verbatim>\<open>toggleCommentLike(commentId)\<close>. Of the response of the select only \<^verbatim>\<open>data\<close> is read
  (\<^verbatim>\<open>const { data: existingLike } = ...\<close>); the responses of the delete and of the insert
  are awaited and dropped.
\<close>

definition toggleCommentLike ::
  "'s backend \<Rightarrow> string option \<Rightarrow> string \<Rightarrow> 's world \<Rightarrow> (thrown + unit) \<times> 's world" where
  "toggleCommentLike b postId commentId w =
     (case auth_getUser b (store w) of
        None \<Rightarrow> (Inl (Error ''Not authenticated''), w)
      | Some uid \<Rightarrow>
          (let res = select_like_single b commentId uid (store w);
               w1 = w\<lparr>store := snd res, trace := trace w @ [SelectLike commentId uid]\<rparr>;
               w2 = (case data (fst res) of
                       Some existingLike \<Rightarrow>
                         w1\<lparr>store := snd (delete_like b existingLike (store w1)),
                            trace := trace w1 @ [DeleteLike existingLike]\<rparr>
                     | None \<Rightarrow>
                         w1\<lparr>store := snd (insert_like b commentId uid (store w1)),
                            trace := trace w1 @ [InsertLike commentId uid]\<rparr>)
           in (Inr (), fetchComments b postId w2)))"

section \<open>The form handlers of \<^verbatim>\<open>CommentSection\<close>\<close>

text \<open>
  \<^verbatim>\<open>String.prototype.trim\<close> removes white space and line terminators from both ends.
  Strings are lists of 8-bit characters here; the characters that \<^verbatim>\<open>trim\<close> removes in
  that range are U+0009 to U+000D, U+0020 and U+00A0.
\<close>

definition is_space :: "char \<Rightarrow> bool" where
  "is_space c = ((of_char c :: nat) \<in> {9, 10, 11, 12, 13, 32, 160})"

definition trim :: "string \<Rightarrow> string" where
  "trim s = rev (dropWhile is_space (rev (dropWhile is_space s)))"

record form =
  newComment :: string
  replyingTo :: "string option"
  replyContent :: string

text \<open>
  \<^verbatim>\<open>if (!newComment.trim() || !user) return;
  try { await createComment(newComment); setNewComment(''); } catch (error) { console.error(...) }\<close>
  The component is given \<^verbatim>\<open>postId: string\<close> and hands it to the hook; \<open>user\<close> is the
  \<^verbatim>\<open>user\<close> of \<^verbatim>\<open>useAuth()\<close>.
\<close>

definition handleSubmitComment ::
  "'s backend \<Rightarrow> string \<Rightarrow> string option \<Rightarrow> form \<times> 's world \<Rightarrow> form \<times> 's world" where
  "handleSubmitComment b postId user fw =
     (if trim (newComment (fst fw)) = [] \<or> user = None then fw
      else (case createComment b (Some postId) (newComment (fst fw)) None (snd fw) of
              (Inr u, w') \<Rightarrow> ((fst fw)\<lparr>newComment := []\<rparr>, w')
            | (Inl e, w') \<Rightarrow> (fst fw, w')))"

text \<open>
  \<^verbatim>\<open>if (!replyContent.trim() || !user) return;
  try { await createComment(replyContent, parentId); setReplyContent(''); setReplyingTo(null); }
  catch (error) { console.error(...) }\<close>
\<close>

definition handleSubmitReply ::
  "'s backend \<Rightarrow> string \<Rightarrow> string option \<Rightarrow> string \<Rightarrow> form \<times> 's world \<Rightarrow> form \<times> 's world" where
  "handleSubmitReply b postId user parentId fw =
     (if trim (replyContent (fst fw)) = [] \<or> user = None then fw
      else (case createComment b (Some postId) (replyContent (fst fw)) (Some parentId) (snd fw) of
              (Inr u, w') \<Rightarrow> ((fst fw)\<lparr>replyContent := [], replyingTo := None\<rparr>, w')
            | (Inl e, w') \<Rightarrow> (fst fw, w')))"

section \<open>The store: the schema of the migration\<close>

text \<open>
  The tables \<^verbatim>\<open>profiles\<close>, \<^verbatim>\<open>comments\<close> and \<^verbatim>\<open>comment_likes\<close> as lists of rows, and of
  \<^verbatim>\<open>posts\<close> the primary keys (the hook reads no other column of it). \<open>auth_uid\<close> is
  \<^verbatim>\<open>auth.uid()\<close>, the user of the session the requests are made in, \<open>None\<close> for an
  anonymous session. \<^verbatim>\<open>gen_random_uuid()\<close> draws from a sequence \<open>uuid_gen\<close>, \<^verbatim>\<open>now()\<close>
  reads \<open>clock\<close>, which advances with every accepted write. A rejected statement leaves
  the database as it was.
\<close>

record profile_row =
  profile_id :: string
  profile_email :: string
  profile_full_name :: "string option"
  profile_avatar_url :: "string option"
  profile_created_at :: nat

record like_row =
  like_id :: string
  like_comment_id :: string
  like_user_id :: string
  like_created_at :: nat

record pg =
  auth_uid :: "string option"
  posts_pk :: "string list"
  profiles_tbl :: "profile_row list"
  comments_tbl :: "comment_row list"
  comment_likes_tbl :: "like_row list"
  uuid_gen :: "nat \<Rightarrow> string"
  uuid_drawn :: nat
  clock :: nat

definition rejected :: "string \<Rightarrow> pg_error option" where
  "rejected msg = Some (PostgrestError msg)"

text \<open>The embedded resource \<^verbatim>\<open>profiles (full_name, email, avatar_url)\<close>, through \<^verbatim>\<open>author_id\<close>.\<close>

definition join_profile :: "pg \<Rightarrow> comment_row \<Rightarrow> comment" where
  "join_profile db r =
     \<lparr>id' = id' r, post_id = post_id r, author_id = author_id r, parent_id = parent_id r,
      content = content r, likes_count = likes_count r, created_at = created_at r,
      updated_at = updated_at r,
      profiles = map_option
        (\<lambda>q. \<lparr>full_name = profile_full_name q, email = profile_email q,
               avatar_url = profile_avatar_url q\<rparr>)
        (find (\<lambda>q. profile_id q = author_id r) (profiles_tbl db))\<rparr>"

text \<open>
  \<^verbatim>\<open>SELECT\<close> on \<^verbatim>\<open>comments\<close>: the policy "Comments are viewable by everyone" is
  \<^verbatim>\<open>USING (true)\<close>. Rows of equal \<^verbatim>\<open>created_at\<close> are returned in table order (SQL leaves
  their order open).
\<close>

definition pg_select_comments :: "string \<Rightarrow> pg \<Rightarrow> comment list response \<times> pg" where
  "pg_select_comments p db =
     (\<lparr>data = Some (map (join_profile db)
                      (sort_key created_at (filter (\<lambda>r. post_id r = p) (comments_tbl db)))),
       error = None\<rparr>, db)"

text \<open>
  \<^verbatim>\<open>INSERT\<close> on \<^verbatim>\<open>comments\<close>: policy "Authenticated users can create comments"
  (\<^verbatim>\<open>TO authenticated WITH CHECK (auth.uid() = author_id)\<close>), the three foreign keys, the
  primary key on the generated \<^verbatim>\<open>id\<close>; \<^verbatim>\<open>likes_count\<close> defaults to 0, \<^verbatim>\<open>created_at\<close>
  and \<^verbatim>\<open>updated_at\<close> to \<^verbatim>\<open>now()\<close>. \<^verbatim>\<open>content text NOT NULL\<close> admits the empty string.
\<close>

definition pg_insert_comment ::
  "string \<Rightarrow> string \<Rightarrow> string option \<Rightarrow> string \<Rightarrow> pg \<Rightarrow> pg_error option \<times> pg" where
  "pg_insert_comment post author parent text db =
     (let new_id = uuid_gen db (uuid_drawn db) in
      if auth_uid db = Some author then
        if post \<in> set (posts_pk db) \<and> author \<in> set (map profile_id (profiles_tbl db))
           \<and> (case parent of None \<Rightarrow> True | Some q \<Rightarrow> q \<in> set (map id' (comments_tbl db)))
        then
          if new_id \<in> set (map id' (comments_tbl db))
          then (rejected ''23505 duplicate key value violates unique constraint'', db)
          else (None,
                db\<lparr>comments_tbl := comments_tbl db @
                      [\<lparr>id' = new_id, post_id = post, author_id = author, parent_id = parent,
                        content = text, likes_count = 0, created_at = clock db,
                        updated_at = clock db\<rparr>],
                   uuid_drawn := Suc (uuid_drawn db),
                   clock := Suc (clock db)\<rparr>)
        else (rejected ''23503 violates foreign key constraint'', db)
      else (rejected ''42501 new row violates row-level security policy'', db))"

text \<open>
  The trigger function \<^verbatim>\<open>update_comment_likes_count\<close>, fired
  \<^verbatim>\<open>AFTER INSERT OR DELETE ON comment_likes FOR EACH ROW\<close>:
  \<^verbatim>\<open>UPDATE comments SET likes_count = likes_count + 1 WHERE id = NEW.comment_id\<close>
  (\<^verbatim>\<open>- 1\<close> and \<^verbatim>\<open>OLD.comment_id\<close> on delete). The function is not declared
  \<^verbatim>\<open>SECURITY DEFINER\<close> (\<^verbatim>\<open>handle_new_user\<close> in the same migration is), so its
  \<^verbatim>\<open>UPDATE\<close> runs as the user of the request, and row-level security is enabled on
  \<^verbatim>\<open>comments\<close>: the statement reaches only the rows that the policy
  "Users can update their own comments", \<^verbatim>\<open>USING (auth.uid() = author_id)\<close>, lets that
  user update; other rows are skipped without an error. Every update of \<^verbatim>\<open>comments\<close>
  passes the trigger \<^verbatim>\<open>update_comments_updated_at\<close>, which sets \<^verbatim>\<open>updated_at = now()\<close>.
\<close>

datatype tg_op = INSERT | DELETE

definition update_comment_likes_count :: "tg_op \<Rightarrow> string \<Rightarrow> pg \<Rightarrow> pg" where
  "update_comment_likes_count op cid db =
     db\<lparr>comments_tbl :=
          map (\<lambda>r. if id' r = cid \<and> auth_uid db = Some (author_id r)
                   then r\<lparr>likes_count := likes_count r + (case op of INSERT \<Rightarrow> 1 | DELETE \<Rightarrow> - 1),
                          updated_at := clock db\<rparr>
                   else r)
              (comments_tbl db)\<rparr>"

text \<open>
  \<^verbatim>\<open>select('id').eq('comment_id', c).eq('user_id', u).single()\<close>: the id of the row when
  exactly one row matches, otherwise \<^verbatim>\<open>data: null\<close> with an error. Policy
  "Comment likes are viewable by everyone".
\<close>

definition pg_select_like_single :: "string \<Rightarrow> string \<Rightarrow> pg \<Rightarrow> string response \<times> pg" where
  "pg_select_like_single c u db =
     (case filter (\<lambda>l. like_comment_id l = c \<and> like_user_id l = u) (comment_likes_tbl db) of
        [l] \<Rightarrow> (\<lparr>data = Some (like_id l), error = None\<rparr>, db)
      | _ \<Rightarrow> (\<lparr>data = None, error = rejected ''PGRST116 the result contains 0 or several rows''\<rparr>, db))"

text \<open>
  \<^verbatim>\<open>INSERT\<close> on \<^verbatim>\<open>comment_likes\<close>: policy "Authenticated users can like comments"
  (\<^verbatim>\<open>WITH CHECK (auth.uid() = user_id)\<close>), the two foreign keys,
  \<^verbatim>\<open>UNIQUE(comment_id, user_id)\<close>, the primary key; then the trigger.
\<close>

definition pg_insert_like :: "string \<Rightarrow> string \<Rightarrow> pg \<Rightarrow> pg_error option \<times> pg" where
  "pg_insert_like c u db =
     (let new_id = uuid_gen db (uuid_drawn db) in
      if auth_uid db = Some u then
        if c \<in> set (map id' (comments_tbl db)) \<and> u \<in> set (map profile_id (profiles_tbl db))
        then
          if (c, u) \<in> set (map (\<lambda>l. (like_comment_id l, like_user_id l)) (comment_likes_tbl db))
             \<or> new_id \<in> set (map like_id (comment_likes_tbl db))
          then (rejected ''23505 duplicate key value violates unique constraint'', db)
          else (None,
                (update_comment_likes_count INSERT c
                   (db\<lparr>comment_likes_tbl := comment_likes_tbl db @
                         [\<lparr>like_id = new_id, like_comment_id = c, like_user_id = u,
                           like_created_at = clock db\<rparr>],
                       uuid_drawn := Suc (uuid_drawn db)\<rparr>))
                \<lparr>clock := Suc (clock db)\<rparr>)
        else (rejected ''23503 violates foreign key constraint'', db)
      else (rejected ''42501 new row violates row-level security policy'', db))"

text \<open>
  \<^verbatim>\<open>DELETE\<close> on \<^verbatim>\<open>comment_likes\<close> by id: the policy "Users can remove their own comment
  likes", \<^verbatim>\<open>USING (auth.uid() = user_id)\<close>, restricts the statement to the rows of the
  user; a statement that deletes no row is not an error. The trigger runs for every
  deleted row.
\<close>

definition pg_delete_like :: "string \<Rightarrow> pg \<Rightarrow> pg_error option \<times> pg" where
  "pg_delete_like lid db =
     (let hit = (\<lambda>l. like_id l = lid \<and> auth_uid db = Some (like_user_id l));
          deleted = filter hit (comment_likes_tbl db)
      in (None,
          (fold (\<lambda>l. update_comment_likes_count DELETE (like_comment_id l)) deleted
             (db\<lparr>comment_likes_tbl := filter (\<lambda>l. \<not> hit l) (comment_likes_tbl db)\<rparr>))
          \<lparr>clock := Suc (clock db)\<rparr>))"

text \<open>
  \<^verbatim>\<open>parent_id uuid REFERENCES comments(id) ON DELETE CASCADE\<close>: when rows are deleted, so
  are the rows whose \<^verbatim>\<open>parent_id\<close> is the id of one of them, and so on. The referential
  action is not subject to the policies. \<open>cascade dead rows\<close> removes from \<open>rows\<close>
  everything that hangs under the ids \<open>dead\<close> of rows already deleted.
\<close>

definition parent_in :: "string list \<Rightarrow> comment_row \<Rightarrow> bool" where
  "parent_in dead r = (case parent_id r of None \<Rightarrow> False | Some p \<Rightarrow> p \<in> set dead)"

function cascade :: "string list \<Rightarrow> comment_row list \<Rightarrow> comment_row list" where
  "cascade dead rows =
     (if filter (parent_in dead) rows = [] then rows
      else cascade (map id' (filter (parent_in dead) rows))
                   (filter (\<lambda>r. \<not> parent_in dead r) rows))"
  by pat_completeness auto
termination
proof (relation "measure (\<lambda>(dead, rows). length rows)")
  show "wf (measure (\<lambda>(dead, rows). length rows))" by simp
next
  fix dead :: "string list" and rows :: "comment_row list"
  assume "filter (parent_in dead) rows \<noteq> []"
  then obtain r where "r \<in> set rows" "parent_in dead r"
    by (auto simp: filter_empty_conv)
  then have "length (filter (\<lambda>r. \<not> parent_in dead r) rows) < length rows"
    by (intro length_filter_less) auto
  then show "((map id' (filter (parent_in dead) rows), filter (\<lambda>r. \<not> parent_in dead r) rows),
              (dead, rows)) \<in> measure (\<lambda>(dead, rows). length rows)"
    by simp
qed

declare cascade.simps [simp del]

text \<open>
  \<^verbatim>\<open>DELETE\<close> on \<^verbatim>\<open>comments\<close> by id: the policy "Users can delete their own comments",
  \<^verbatim>\<open>USING (auth.uid() = author_id)\<close>, restricts the statement to the rows of the user.
  The deletion cascades to the replies (above) and, through
  \<^verbatim>\<open>comment_id uuid REFERENCES comments(id) ON DELETE CASCADE\<close>, to the likes of every
  deleted comment. The like trigger then looks for the comment of each deleted like, which
  is gone, and updates nothing.
\<close>

definition pg_delete_comment :: "string \<Rightarrow> pg \<Rightarrow> pg_error option \<times> pg" where
  "pg_delete_comment cid db =
     (let hit = (\<lambda>r. id' r = cid \<and> auth_uid db = Some (author_id r)) in
      if filter hit (comments_tbl db) = [] then (None, db)
      else
        (let kept = cascade [cid] (filter (\<lambda>r. \<not> hit r) (comments_tbl db));
             gone = map id' (filter (\<lambda>r. r \<notin> set kept) (comments_tbl db))
         in (None,
             db\<lparr>comments_tbl := kept,
                comment_likes_tbl := filter (\<lambda>l. like_comment_id l \<notin> set gone) (comment_likes_tbl db),
                clock := Suc (clock db)\<rparr>)))"

definition pg_backend :: "pg backend" where
  "pg_backend =
     \<lparr>auth_getUser = auth_uid,
      select_comments = pg_select_comments,
      insert_comment = pg_insert_comment,
      delete_comment = pg_delete_comment,
      select_like_single = pg_select_like_single,
      delete_like = pg_delete_like,
      insert_like = pg_insert_like\<rparr>"

text \<open>
  A store that cannot be reached: every request resolves with an error, and
  \<^verbatim>\<open>auth.getUser()\<close> reports no user.
\<close>

definition unreachable :: "unit backend" where
  "unreachable =
     \<lparr>auth_getUser = (\<lambda>s. None),
      select_comments = (\<lambda>p s. (\<lparr>data = None, error = rejected ''Failed to fetch''\<rparr>, s)),
      insert_comment = (\<lambda>p a q t s. (rejected ''Failed to fetch'', s)),
      delete_comment = (\<lambda>c s. (rejected ''Failed to fetch'', s)),
      select_like_single = (\<lambda>c u s. (\<lparr>data = None, error = rejected ''Failed to fetch''\<rparr>, s)),
      delete_like = (\<lambda>l s. (rejected ''Failed to fetch'', s)),
      insert_like = (\<lambda>c u s. (rejected ''Failed to fetch'', s))\<rparr>"

section \<open>Notions used in the statements\<close>

text \<open>The state after the first \<^verbatim>\<open>forEach\<close>.\<close>

definition pass1 :: "comment list \<Rightarrow> build" where
  "pass1 xs = fold index_comment xs empty_build"

text \<open>
  What the second \<^verbatim>\<open>forEach\<close> does for one row: the address \<open>pa\<close> of the object pushed
  on and the address \<open>ca\<close> pushed, if the row has a truthy \<^verbatim>\<open>parent_id\<close> that the map knows.
\<close>

definition edge :: "(string \<rightharpoonup> nat) \<Rightarrow> comment \<Rightarrow> (nat \<times> nat) option" where
  "edge m c =
     (if truthy (parent_id c) then
        (case parent_id c of None \<Rightarrow> None
         | Some p \<Rightarrow> (case m p of None \<Rightarrow> None
             | Some pa \<Rightarrow> (case m (id' c) of None \<Rightarrow> None | Some ca \<Rightarrow> Some (pa, ca))))
      else None)"

text \<open>\<^verbatim>\<open>listComments(postId)\<close>: the rows a select for the post returns.\<close>

definition listComments :: "string \<Rightarrow> pg \<Rightarrow> comment list" where
  "listComments p db = (case data (fst (pg_select_comments p db)) of None \<Rightarrow> [] | Some rows \<Rightarrow> rows)"

text \<open>
  \<open>leads_to rows n d cid\<close>: following \<^verbatim>\<open>parent_id\<close> from the row \<open>d\<close> through rows of
  the table reaches the id \<open>cid\<close> in at most \<open>n\<close> steps.
\<close>

fun leads_to :: "comment_row list \<Rightarrow> nat \<Rightarrow> comment_row \<Rightarrow> string \<Rightarrow> bool" where
  "leads_to rows 0 d cid = False"
| "leads_to rows (Suc n) d cid =
     (case parent_id d of
        None \<Rightarrow> False
      | Some p \<Rightarrow> p = cid \<or> list_ex (\<lambda>e. id' e = p \<and> leads_to rows n e cid) rows)"

text \<open>The users that have a like record for comment \<open>c\<close>.\<close>

definition likers :: "string \<Rightarrow> pg \<Rightarrow> string list" where
  "likers c db = map like_user_id (filter (\<lambda>l. like_comment_id l = c) (comment_likes_tbl db))"

text \<open>The \<^verbatim>\<open>likes_count\<close> that fetched rows report for comment \<open>c\<close>.\<close>

definition reported_likes_count :: "string \<Rightarrow> comment list \<Rightarrow> int list" where
  "reported_likes_count c rows = map likes_count (filter (\<lambda>r. id' r = c) rows)"

section \<open>Example data\<close>

text \<open>
  A fetched thread: two roots, a reply, a comment whose parent is not in the set and a
  comment that names itself as parent.
\<close>

definition fetched :: "string \<Rightarrow> string option \<Rightarrow> nat \<Rightarrow> comment" where
  "fetched i p t =
     \<lparr>id' = i, post_id = ''p1'', author_id = ''u1'', parent_id = p, content = ''hello'',
      likes_count = 0, created_at = t, updated_at = t, profiles = None\<rparr>"

definition thread_example :: "comment list" where
  "thread_example =
     [fetched ''c1'' None 1, fetched ''c2'' (Some ''c1'') 2, fetched ''c3'' None 3,
      fetched ''c4'' (Some ''c9'') 4, fetched ''c5'' (Some ''c5'') 5]"

text \<open>
  A database with two users, one post and four comments: \<^verbatim>\<open>c1\<close> by \<^verbatim>\<open>u1\<close>, its reply
  \<^verbatim>\<open>c2\<close> by \<^verbatim>\<open>u2\<close>, the reply \<^verbatim>\<open>c3\<close> to \<^verbatim>\<open>c2\<close>, and \<^verbatim>\<open>c4\<close>. The argument is the
  user of the session.
\<close>

definition stored :: "string \<Rightarrow> string \<Rightarrow> string option \<Rightarrow> nat \<Rightarrow> comment_row" where
  "stored i a p t =
     \<lparr>id' = i, post_id = ''p1'', author_id = a, parent_id = p, content = ''hello'',
      likes_count = 0, created_at = t, updated_at = t\<rparr>"

definition member :: "string \<Rightarrow> profile_row" where
  "member u =
     \<lparr>profile_id = u, profile_email = u @ ''@example.org'', profile_full_name = None,
      profile_avatar_url = None, profile_created_at = 0\<rparr>"

definition example_db :: "string option \<Rightarrow> pg" where
  "example_db who =
     \<lparr>auth_uid = who, posts_pk = [''p1''], profiles_tbl = [member ''u1'', member ''u2''],
      comments_tbl = [stored ''c1'' ''u1'' None 1, stored ''c2'' ''u2'' (Some ''c1'') 2,
                      stored ''c3'' ''u1'' (Some ''c2'') 3, stored ''c4'' ''u2'' None 4],
      comment_likes_tbl = [], uuid_gen = (\<lambda>n. replicate (Suc n) CHR ''k''),
      uuid_drawn = 0, clock = 10\<rparr>"

definition example_world :: "string option \<Rightarrow> pg world" where
  "example_world who =
     \<lparr>store = example_db who, trace = [], comments = \<lparr>objects = [], roots = []\<rparr>,
      loading = False, error_state = None\<rparr>"

definition offline_world :: "unit world" where
  "offline_world =
     \<lparr>store = (), trace = [], comments = buildTree thread_example,
      loading = False, error_state = None\<rparr>"

section \<open>The first pass\<close>

lemma pass1_Nil: "pass1 [] = empty_build"
  by (simp add: pass1_def)

lemma pass1_snoc: "pass1 (xs @ [x]) = index_comment x (pass1 xs)"
  by (simp add: pass1_def)

lemma heap_pass1: "heap (pass1 xs) = map (\<lambda>c. \<lparr>comment_of = c, replies = []\<rparr>) xs"
  by (induction xs rule: rev_induct)
     (simp_all add: pass1_Nil pass1_snoc empty_build_def index_comment_def Let_def)

lemma length_heap_pass1: "length (heap (pass1 xs)) = length xs"
  by (simp add: heap_pass1)

lemma roots_pass1:
  "rootComments (pass1 xs) = filter (\<lambda>j. \<not> truthy (parent_id (xs ! j))) [0..<length xs]"
proof (induction xs rule: rev_induct)
  case Nil
  show ?case by (simp add: pass1_Nil empty_build_def)
next
  case (snoc x xs)
  have "filter (\<lambda>j. \<not> truthy (parent_id ((xs @ [x]) ! j))) [0..<length xs]
        = filter (\<lambda>j. \<not> truthy (parent_id (xs ! j))) [0..<length xs]"
    by (rule filter_cong) (simp_all add: nth_append)
  then show ?case
    using snoc by (simp add: pass1_snoc index_comment_def Let_def length_heap_pass1)
qed

lemma commentMap_pass1_None:
  "k \<notin> id' ` set xs \<Longrightarrow> commentMap (pass1 xs) k = None"
  by (induction xs rule: rev_induct)
     (auto simp: pass1_Nil pass1_snoc empty_build_def index_comment_def Let_def)

lemma commentMap_index_Some:
  "c \<in> set xs \<Longrightarrow> \<exists>a. commentMap (pass1 xs) (id' c) = Some a"
  by (induction xs rule: rev_induct)
     (auto simp: pass1_Nil pass1_snoc empty_build_def index_comment_def Let_def)

lemma commentMap_pass1_distinct:
  "distinct (map id' xs) \<Longrightarrow> i < length xs \<Longrightarrow> commentMap (pass1 xs) (id' (xs ! i)) = Some i"
proof (induction xs rule: rev_induct)
  case Nil
  then show ?case by simp
next
  case (snoc x xs)
  show ?case
  proof (cases "i < length xs")
    case True
    then have "xs ! i \<in> set xs" by simp
    with snoc.prems have "id' (xs ! i) \<noteq> id' x" by (auto simp: image_iff)
    with True snoc show ?thesis
      by (simp add: pass1_snoc index_comment_def Let_def nth_append)
  next
    case False
    with snoc.prems have "i = length xs" by simp
    then show ?thesis
      by (simp add: pass1_snoc index_comment_def Let_def length_heap_pass1)
  qed
qed

section \<open>The second pass\<close>

lemma attach_comment_edge:
  "attach_comment c s =
     (case edge (commentMap s) c of None \<Rightarrow> s
      | Some (pa, ca) \<Rightarrow> s\<lparr>heap := push_reply pa ca (heap s)\<rparr>)"
  by (simp add: attach_comment_def edge_def split: option.splits)

lemma commentMap_attach [simp]: "commentMap (attach_comment c s) = commentMap s"
  by (simp add: attach_comment_edge split: option.splits prod.splits)

lemma rootComments_attach [simp]: "rootComments (attach_comment c s) = rootComments s"
  by (simp add: attach_comment_edge split: option.splits prod.splits)

lemma length_push_reply [simp]: "length (push_reply pa ca h) = length h"
  by (simp add: push_reply_def)

lemma comment_of_push_reply [simp]:
  "comment_of (push_reply pa ca h ! a) = comment_of (h ! a)"
  by (cases "pa < length h") (simp_all add: push_reply_def nth_list_update not_less list_update_beyond)

lemma replies_push_reply:
  "a < length h \<Longrightarrow>
   replies (push_reply pa ca h ! a) = replies (h ! a) @ (if pa = a then [ca] else [])"
  by (simp add: push_reply_def nth_list_update)

lemma commentMap_fold_attach [simp]: "commentMap (fold attach_comment ys s) = commentMap s"
  by (induction ys arbitrary: s) simp_all

lemma rootComments_fold_attach [simp]: "rootComments (fold attach_comment ys s) = rootComments s"
  by (induction ys arbitrary: s) simp_all

lemma length_heap_attach [simp]: "length (heap (attach_comment c s)) = length (heap s)"
  by (simp add: attach_comment_edge split: option.splits prod.splits)

lemma length_heap_fold_attach [simp]:
  "length (heap (fold attach_comment ys s)) = length (heap s)"
  by (induction ys arbitrary: s) simp_all

lemma comment_of_attach [simp]:
  "comment_of (heap (attach_comment c s) ! a) = comment_of (heap s ! a)"
  by (simp add: attach_comment_edge split: option.splits prod.splits)

lemma comment_of_fold_attach [simp]:
  "comment_of (heap (fold attach_comment ys s) ! a) = comment_of (heap s ! a)"
  by (induction ys arbitrary: s) simp_all

lemma replies_attach:
  "a < length (heap s) \<Longrightarrow>
   replies (heap (attach_comment c s) ! a) =
   replies (heap s ! a) @ (case edge (commentMap s) c of
                             None \<Rightarrow> [] | Some (pa, ca) \<Rightarrow> if pa = a then [ca] else [])"
  by (simp add: attach_comment_edge replies_push_reply split: option.splits prod.splits)

lemma replies_fold_attach:
  "a < length (heap s) \<Longrightarrow>
   replies (heap (fold attach_comment ys s) ! a) =
   replies (heap s ! a) @
   concat (map (\<lambda>c. case edge (commentMap s) c of
                       None \<Rightarrow> [] | Some (pa, ca) \<Rightarrow> if pa = a then [ca] else []) ys)"
proof (induction ys arbitrary: s)
  case Nil
  then show ?case by simp
next
  case (Cons y ys)
  then show ?case by (simp add: replies_attach)
qed

section \<open>The forest that \<^verbatim>\<open>buildTree\<close> returns\<close>

lemma edge_pass1:
  assumes d: "distinct (map id' xs)" and j: "j < length xs" and i: "i < length xs"
  shows "(case edge (commentMap (pass1 xs)) (xs ! j) of
            None \<Rightarrow> [] | Some (pa, ca) \<Rightarrow> if pa = i then [ca] else [])
         = (if truthy (parent_id (xs ! j)) \<and> parent_id (xs ! j) = Some (id' (xs ! i))
            then [j] else [])"
proof (cases "truthy (parent_id (xs ! j))")
  case False
  then show ?thesis by (simp add: edge_def)
next
  case True
  then obtain p where p: "parent_id (xs ! j) = Some p"
    by (cases "parent_id (xs ! j)") (simp_all add: truthy_def)
  have self: "commentMap (pass1 xs) (id' (xs ! j)) = Some j"
    using d j by (rule commentMap_pass1_distinct)
  show ?thesis
  proof (cases "p \<in> id' ` set xs")
    case False
    then have "commentMap (pass1 xs) p = None" by (rule commentMap_pass1_None)
    moreover from False i have "p \<noteq> id' (xs ! i)" by auto
    ultimately show ?thesis using True p by (simp add: edge_def)
  next
    case True
    then obtain k where k: "k < length xs" "p = id' (xs ! k)"
      by (auto simp: in_set_conv_nth)
    have look: "commentMap (pass1 xs) p = Some k"
      using d k by (simp add: commentMap_pass1_distinct)
    have "(k = i) = (p = id' (xs ! i))"
      using d k i by (auto simp: distinct_conv_nth)
    then show ?thesis
      using \<open>truthy (parent_id (xs ! j))\<close> p look self by (simp add: edge_def)
  qed
qed

lemma concat_singletons:
  "concat (map (\<lambda>j. if Q j then [j] else []) js) = filter Q js"
  by (induction js) simp_all

lemma map_nth_filter:
  "map ((!) xs) (filter (\<lambda>j. P (xs ! j)) [0..<length xs]) = filter P xs"
proof -
  have "filter P xs = filter P (map ((!) xs) [0..<length xs])"
    by (simp add: map_nth)
  also have "\<dots> = map ((!) xs) (filter (P \<circ> (!) xs) [0..<length xs])"
    by (simp only: filter_map)
  finally show ?thesis by (simp add: comp_def)
qed

lemma objects_buildTree:
  "map comment_of (objects (buildTree xs)) = xs"
proof (rule nth_equalityI)
  show "length (map comment_of (objects (buildTree xs))) = length xs"
    by (simp add: buildTree_def Let_def pass1_def [symmetric] length_heap_pass1)
next
  fix i assume "i < length (map comment_of (objects (buildTree xs)))"
  then have "i < length xs"
    by (simp add: buildTree_def Let_def pass1_def [symmetric] length_heap_pass1)
  then show "map comment_of (objects (buildTree xs)) ! i = xs ! i"
    by (simp add: buildTree_def Let_def pass1_def [symmetric] length_heap_pass1 heap_pass1)
qed

lemma length_objects_buildTree [simp]: "length (objects (buildTree xs)) = length xs"
  using arg_cong [OF objects_buildTree [of xs], of length] by simp

lemma comment_of_buildTree:
  "i < length xs \<Longrightarrow> comment_of (objects (buildTree xs) ! i) = xs ! i"
  using arg_cong [OF objects_buildTree [of xs], of "\<lambda>l. l ! i"] by simp

lemma roots_buildTree:
  "roots (buildTree xs) = filter (\<lambda>j. \<not> truthy (parent_id (xs ! j))) [0..<length xs]"
  by (simp add: buildTree_def Let_def pass1_def [symmetric] roots_pass1)

lemma replies_buildTree:
  assumes "distinct (map id' xs)" and "i < length xs"
  shows "replies (objects (buildTree xs) ! i) =
         filter (\<lambda>j. truthy (parent_id (xs ! j)) \<and> parent_id (xs ! j) = Some (id' (xs ! i)))
                [0..<length xs]"
proof -
  let ?g = "\<lambda>c. case edge (commentMap (pass1 xs)) c of
                   None \<Rightarrow> [] | Some (pa, ca) \<Rightarrow> if pa = i then [ca] else []"
  let ?Q = "\<lambda>j. truthy (parent_id (xs ! j)) \<and> parent_id (xs ! j) = Some (id' (xs ! i))"
  have "replies (objects (buildTree xs) ! i) = concat (map ?g xs)"
    using assms(2)
    by (simp add: buildTree_def Let_def pass1_def [symmetric] replies_fold_attach
                  length_heap_pass1 heap_pass1)
  also have "map ?g xs = map ?g (map ((!) xs) [0..<length xs])"
    by (simp add: map_nth)
  also have "\<dots> = map (\<lambda>j. if ?Q j then [j] else []) [0..<length xs]"
    using assms by (simp add: edge_pass1)
  finally show ?thesis by (simp only: concat_singletons)
qed

lemma root_list_buildTree:
  "root_list (buildTree xs) = filter (\<lambda>c. \<not> truthy (parent_id c)) xs"
proof -
  have "root_list (buildTree xs)
        = map ((!) xs) (filter (\<lambda>j. \<not> truthy (parent_id (xs ! j))) [0..<length xs])"
    by (simp add: root_list_def deref_def roots_buildTree comment_of_buildTree)
  also have "\<dots> = filter (\<lambda>c. \<not> truthy (parent_id c)) xs"
    by (rule map_nth_filter [of xs "\<lambda>c. \<not> truthy (parent_id c)"])
  finally show ?thesis .
qed

lemma children_buildTree:
  assumes "distinct (map id' xs)" and "i < length xs"
  shows "children (buildTree xs) i =
         filter (\<lambda>c. truthy (parent_id c) \<and> parent_id c = Some (id' (xs ! i))) xs"
proof -
  have "children (buildTree xs) i
        = map ((!) xs) (filter (\<lambda>j. truthy (parent_id (xs ! j))
                                   \<and> parent_id (xs ! j) = Some (id' (xs ! i))) [0..<length xs])"
    using assms by (simp add: children_def deref_def replies_buildTree comment_of_buildTree)
  also have "\<dots> = filter (\<lambda>c. truthy (parent_id c) \<and> parent_id c = Some (id' (xs ! i))) xs"
    by (rule map_nth_filter
          [of xs "\<lambda>c. truthy (parent_id c) \<and> parent_id c = Some (id' (xs ! i))"])
  finally show ?thesis .
qed

section \<open>Claims about the tree\<close>

lemma thread_example_distinct: "distinct (map id' thread_example)"
  by (simp add: thread_example_def fetched_def)

lemma length_thread_example: "length thread_example = 5"
  by (simp add: thread_example_def)

text \<open>
  Claim C1. For a flat comment set with unique ids (and no empty string as parent id), the
  objects of the result are the input comments, the root list holds exactly the input
  comments whose \<^verbatim>\<open>parent_id\<close> is null, and the \<^verbatim>\<open>replies\<close> of every node hold exactly
  the input comments whose \<^verbatim>\<open>parent_id\<close> is the id of that node, each in input order.
\<close>
theorem buildTree_children_and_roots:
  assumes "distinct (map id' flat)" and "\<forall>c \<in> set flat. parent_id c \<noteq> Some []"
  shows "map comment_of (objects (buildTree flat)) = flat
       \<and> root_list (buildTree flat) = filter (\<lambda>c. parent_id c = None) flat
       \<and> (\<forall>a < length (objects (buildTree flat)).
            children (buildTree flat) a
            = filter (\<lambda>c. parent_id c = Some (id' (comment_of (objects (buildTree flat) ! a)))) flat)"
proof -
  have falsy: "\<And>c. c \<in> set flat \<Longrightarrow> truthy (parent_id c) = (parent_id c \<noteq> None)"
    using assms(2) by (auto simp: truthy_def split: option.splits)
  have "filter (\<lambda>c. \<not> truthy (parent_id c)) flat = filter (\<lambda>c. parent_id c = None) flat"
    by (rule filter_cong) (simp_all add: falsy)
  then have r: "root_list (buildTree flat) = filter (\<lambda>c. parent_id c = None) flat"
    by (simp add: root_list_buildTree)
  have c: "children (buildTree flat) a
           = filter (\<lambda>c. parent_id c = Some (id' (comment_of (objects (buildTree flat) ! a)))) flat"
    if "a < length flat" for a
  proof -
    have "filter (\<lambda>c. truthy (parent_id c) \<and> parent_id c = Some (id' (flat ! a))) flat
          = filter (\<lambda>c. parent_id c = Some (id' (flat ! a))) flat"
      by (rule filter_cong) (auto simp: falsy)
    with assms(1) that show ?thesis
      by (simp add: children_buildTree comment_of_buildTree)
  qed
  from r c show ?thesis by (simp add: objects_buildTree)
qed

text \<open>The theorem of C1 on the example thread.\<close>
theorem buildTree_children_and_roots_witness:
  "distinct (map id' thread_example)
   \<and> list_all (\<lambda>c. parent_id c \<noteq> Some []) thread_example
   \<and> (0 < length (objects (buildTree thread_example)))
   \<and> root_list (buildTree thread_example) = [fetched ''c1'' None 1, fetched ''c3'' None 3]
   \<and> children (buildTree thread_example) 0 = [fetched ''c2'' (Some ''c1'') 2]"
proof -
  have h1: "distinct (map id' thread_example)" by (rule thread_example_distinct)
  have h2: "\<forall>c \<in> set thread_example. parent_id c \<noteq> Some []"
    by (simp add: thread_example_def fetched_def)
  have h3: "0 < length (objects (buildTree thread_example))"
    by (simp add: length_thread_example)
  from buildTree_children_and_roots [OF h1 h2] h3
  have "root_list (buildTree thread_example) = filter (\<lambda>c. parent_id c = None) thread_example"
    and "children (buildTree thread_example) 0
         = filter (\<lambda>c. parent_id c = Some (id' (comment_of (objects (buildTree thread_example) ! 0))))
             thread_example"
    by blast+
  moreover have "comment_of (objects (buildTree thread_example) ! 0) = fetched ''c1'' None 1"
    by (simp add: comment_of_buildTree length_thread_example) (simp add: thread_example_def)
  moreover have "list_all (\<lambda>c. parent_id c \<noteq> Some []) thread_example"
    using h2 by (simp add: list_all_iff)
  ultimately show ?thesis
    using h1 h3 by (simp add: thread_example_def fetched_def)
qed

text \<open>
  Claim C2. For a flat comment set with unique ids that is sorted ascending by
  \<^verbatim>\<open>created_at\<close>, the root list and every \<^verbatim>\<open>replies\<close> list are subsequences of the input
  (siblings keep the input order) and are sorted ascending by \<^verbatim>\<open>created_at\<close>.
\<close>
theorem buildTree_sibling_order:
  assumes "distinct (map id' flat)" and "sorted (map created_at flat)"
  shows "subseq (root_list (buildTree flat)) flat
       \<and> sorted (map created_at (root_list (buildTree flat)))
       \<and> (\<forall>a < length (objects (buildTree flat)).
            subseq (children (buildTree flat) a) flat
            \<and> sorted (map created_at (children (buildTree flat) a)))"
  using assms
  by (simp add: root_list_buildTree children_buildTree sorted_filter)

text \<open>The theorem of C2 on the example thread.\<close>
theorem buildTree_sibling_order_witness:
  "distinct (map id' thread_example) \<and> sorted (map created_at thread_example)
   \<and> 0 < length (objects (buildTree thread_example))
   \<and> sorted (map created_at (root_list (buildTree thread_example)))
   \<and> subseq (children (buildTree thread_example) 0) thread_example"
proof -
  have h2: "sorted (map created_at thread_example)"
    by (simp add: thread_example_def fetched_def)
  have h3: "0 < length (objects (buildTree thread_example))"
    by (simp add: length_thread_example)
  from buildTree_sibling_order [OF thread_example_distinct h2] h3 thread_example_distinct h2
  show ?thesis by blast
qed

text \<open>
  Claim C3. In a flat comment set with unique ids, a comment whose \<^verbatim>\<open>parent_id\<close> is a
  non-empty id that no comment of the set has is dropped: neither its object nor its value
  is in the root list or in the \<^verbatim>\<open>replies\<close> of any node. The construction has no failing
  branch, so nothing is raised.
\<close>
theorem buildTree_drops_orphans:
  assumes "distinct (map id' flat)" and "j < length flat"
    and "parent_id (flat ! j) = Some p" and "p \<noteq> []" and "p \<notin> id' ` set flat"
  shows "j \<notin> set (roots (buildTree flat)) \<and> flat ! j \<notin> set (root_list (buildTree flat))
       \<and> (\<forall>a < length (objects (buildTree flat)).
            j \<notin> set (replies (objects (buildTree flat) ! a))
            \<and> flat ! j \<notin> set (children (buildTree flat) a))"
proof -
  have t: "truthy (parent_id (flat ! j))"
    using assms(3,4) by (simp add: truthy_def)
  have no: "p \<noteq> id' (flat ! a)" if "a < length flat" for a
    using assms(5) that by auto
  show ?thesis
    using assms(1,2,3) t no
    by (auto simp: roots_buildTree root_list_buildTree replies_buildTree children_buildTree)
qed

text \<open>The theorem of C3 on the example thread (\<^verbatim>\<open>c4\<close>, at position 3).\<close>
theorem buildTree_drops_orphans_witness:
  "distinct (map id' thread_example) \<and> 3 < length thread_example
   \<and> parent_id (thread_example ! 3) = Some ''c9'' \<and> ''c9'' \<noteq> [] \<and> ''c9'' \<notin> id' ` set thread_example
   \<and> 0 < length (objects (buildTree thread_example))
   \<and> 3 \<notin> set (roots (buildTree thread_example))
   \<and> 3 \<notin> set (replies (objects (buildTree thread_example) ! 0))"
proof -
  have h2: "3 < length thread_example" by (simp add: length_thread_example)
  have h3: "parent_id (thread_example ! 3) = Some ''c9''"
    by (simp add: thread_example_def fetched_def)
  have h4: "''c9'' \<noteq> []" by simp
  have h5: "''c9'' \<notin> id' ` set thread_example"
    by (simp add: thread_example_def fetched_def)
  have h6: "0 < length (objects (buildTree thread_example))"
    by (simp add: length_thread_example)
  from buildTree_drops_orphans [OF thread_example_distinct h2 h3 h4 h5] h6
  have "3 \<notin> set (roots (buildTree thread_example))
      \<and> 3 \<notin> set (replies (objects (buildTree thread_example) ! 0))"
    by blast
  with thread_example_distinct h2 h3 h4 h5 h6 show ?thesis by blast
qed

text \<open>
  Claim C10. In a flat comment set with unique ids, a comment whose \<^verbatim>\<open>parent_id\<close> is its
  own (non-empty) id is not dropped as an orphan: its object is pushed on its own
  \<^verbatim>\<open>replies\<close>, it is not in the root list, and it is in the \<^verbatim>\<open>replies\<close> of no other node.
\<close>
theorem buildTree_self_parent:
  assumes "distinct (map id' flat)" and "i < length flat"
    and "parent_id (flat ! i) = Some (id' (flat ! i))" and "id' (flat ! i) \<noteq> []"
  shows "i \<in> set (replies (objects (buildTree flat) ! i))
       \<and> i \<notin> set (roots (buildTree flat))
       \<and> (\<forall>a < length (objects (buildTree flat)).
            a \<noteq> i \<longrightarrow> i \<notin> set (replies (objects (buildTree flat) ! a)))"
proof -
  have t: "truthy (parent_id (flat ! i))"
    using assms(3,4) by (simp add: truthy_def)
  have other: "id' (flat ! i) \<noteq> id' (flat ! a)" if "a < length flat" "a \<noteq> i" for a
    using assms(1,2) that by (auto simp: distinct_conv_nth)
  show ?thesis
    using assms(1,2,3) t other
    by (auto simp: roots_buildTree replies_buildTree)
qed

text \<open>The theorem of C10 on the example thread (\<^verbatim>\<open>c5\<close>, at position 4).\<close>
theorem buildTree_self_parent_witness:
  "distinct (map id' thread_example) \<and> 4 < length thread_example
   \<and> parent_id (thread_example ! 4) = Some (id' (thread_example ! 4))
   \<and> id' (thread_example ! 4) \<noteq> []
   \<and> 0 < length (objects (buildTree thread_example)) \<and> (0::nat) \<noteq> 4
   \<and> 4 \<in> set (replies (objects (buildTree thread_example) ! 4))
   \<and> 4 \<notin> set (roots (buildTree thread_example))
   \<and> 4 \<notin> set (replies (objects (buildTree thread_example) ! 0))"
proof -
  have h2: "4 < length thread_example" by (simp add: length_thread_example)
  have h3: "parent_id (thread_example ! 4) = Some (id' (thread_example ! 4))"
    by (simp add: thread_example_def fetched_def)
  have h4: "id' (thread_example ! 4) \<noteq> []"
    by (simp add: thread_example_def fetched_def)
  have h5: "0 < length (objects (buildTree thread_example))"
    by (simp add: length_thread_example)
  have h6: "(0::nat) \<noteq> 4" by simp
  from buildTree_self_parent [OF thread_example_distinct h2 h3 h4] h5 h6
  have "4 \<in> set (replies (objects (buildTree thread_example) ! 4))
      \<and> 4 \<notin> set (roots (buildTree thread_example))
      \<and> 4 \<notin> set (replies (objects (buildTree thread_example) ! 0))"
    by blast
  with thread_example_distinct h2 h3 h4 h5 h6 show ?thesis by blast
qed

section \<open>Claims about the operations of the hook\<close>

lemmas example_defs = example_world_def example_db_def stored_def member_def pg_backend_def

text \<open>
  Claim C4 says that \<^verbatim>\<open>createComment\<close> with content that is empty after trimming fails
  with a validation error and writes nothing. \<^verbatim>\<open>createComment\<close> has no test of the
  content: called with the empty string by a signed-in user it succeeds, and the insert is
  sent.
\<close>
theorem createComment_empty_content_counterexample:
  "trim '''' = []
   \<and> fst (createComment pg_backend (Some ''p1'') '''' None (example_world (Some ''u2''))) = Inr ()
   \<and> filter is_write
        (trace (snd (createComment pg_backend (Some ''p1'') '''' None (example_world (Some ''u2'')))))
      = [InsertComment ''p1'' ''u2'' None '''']"
  by (simp add: trim_def createComment_def fetchComments_def truthy_def or_null_def Let_def
                pg_insert_comment_def pg_select_comments_def example_defs)

text \<open>
  Claim C4, amended. Content that is empty after trimming is stopped by the form handlers
  \<^verbatim>\<open>handleSubmitComment\<close> and \<^verbatim>\<open>handleSubmitReply\<close>, which return without calling
  \<^verbatim>\<open>createComment\<close>: nothing is raised, no request is sent and nothing changes.
  \<^verbatim>\<open>createComment\<close> itself, called for a post by a signed-in user, sends the insert with
  the content as it is given.
\<close>
theorem empty_content_stopped_by_form_handlers:
  assumes "trim text = []"
  shows "handleSubmitComment b postId user (f\<lparr>newComment := text\<rparr>, w) = (f\<lparr>newComment := text\<rparr>, w)
       \<and> handleSubmitReply b postId user parentId (f\<lparr>replyContent := text\<rparr>, w)
           = (f\<lparr>replyContent := text\<rparr>, w)
       \<and> (\<forall>pid uid. pid \<noteq> [] \<and> auth_getUser b (store w) = Some uid \<longrightarrow>
             take (Suc (length (trace w))) (trace (snd (createComment b (Some pid) text q w)))
             = trace w @ [InsertComment pid uid (or_null q) text])"
proof -
  have tr: "take (Suc (length (trace w))) (trace (fetchComments b p w')) = trace w @ [r]"
    if "trace w' = trace w @ [r]" for p w' r
    using that by (simp add: fetchComments_def Let_def split: option.splits)
  show ?thesis
    using assms
    by (auto simp: handleSubmitComment_def handleSubmitReply_def createComment_def truthy_def
                   Let_def tr split: option.splits)
qed

text \<open>The theorem of C4 for content of two spaces.\<close>
theorem empty_content_stopped_by_form_handlers_witness:
  "trim ''  '' = [] \<and> ''p1'' \<noteq> []
   \<and> auth_getUser pg_backend (store (example_world (Some ''u2''))) = Some ''u2''
   \<and> handleSubmitComment pg_backend ''p1'' (Some ''u2'')
        (\<lparr>newComment = ''  '', replyingTo = None, replyContent = []\<rparr>, example_world (Some ''u2''))
      = (\<lparr>newComment = ''  '', replyingTo = None, replyContent = []\<rparr>, example_world (Some ''u2''))
   \<and> take (Suc (length (trace (example_world (Some ''u2'')))))
        (trace (snd (createComment pg_backend (Some ''p1'') ''  '' None (example_world (Some ''u2'')))))
      = trace (example_world (Some ''u2'')) @ [InsertComment ''p1'' ''u2'' (or_null None) ''  '']"
proof -
  have h1: "trim ''  '' = []" by (simp add: trim_def is_space_def)
  have h2: "''p1'' \<noteq> []" by simp
  have h3: "auth_getUser pg_backend (store (example_world (Some ''u2''))) = Some ''u2''"
    by (simp add: example_defs)
  from empty_content_stopped_by_form_handlers
         [OF h1, of pg_backend "''p1''" "Some ''u2''"
            "\<lparr>newComment = ''  '', replyingTo = None, replyContent = []\<rparr>"
            "example_world (Some ''u2'')" "''c1''" None] h1 h2 h3
  show ?thesis by simp
qed

text \<open>
  Claim C5 says that every call of \<^verbatim>\<open>createComment\<close> without a signed-in user fails with
  the authentication error. The test \<^verbatim>\<open>if (!postId) throw new Error('No post ID provided')\<close>
  comes first: on a hook without a post id the call fails with that error instead.
\<close>
theorem createComment_without_post_counterexample:
  "auth_getUser pg_backend (store (example_world None)) = None
   \<and> fst (createComment pg_backend None ''hello'' None (example_world None))
       = Inl (Error ''No post ID provided'')
   \<and> Error ''No post ID provided'' \<noteq> AuthenticationError"
  by (simp add: createComment_def truthy_def example_defs)

text \<open>
  Claim C5, amended. Without a signed-in user, \<^verbatim>\<open>toggleCommentLike\<close>, and \<^verbatim>\<open>createComment\<close>
  on a hook that has a post id, fail with \<^verbatim>\<open>Error('Not authenticated')\<close> and leave the
  store, the list of requests sent and the state of the hook as they were: no request is
  sent at all.
\<close>
theorem unauthenticated_calls_fail_before_any_request:
  assumes "auth_getUser b (store w) = None"
  shows "toggleCommentLike b postId commentId w = (Inl AuthenticationError, w)
       \<and> (truthy postId \<longrightarrow> createComment b postId text parentId w = (Inl AuthenticationError, w))"
  using assms
  by (auto simp: toggleCommentLike_def createComment_def truthy_def split: option.splits)

text \<open>The theorem of C5 on the example database with an anonymous session.\<close>
theorem unauthenticated_calls_fail_before_any_request_witness:
  "auth_getUser pg_backend (store (example_world None)) = None \<and> truthy (Some ''p1'')
   \<and> toggleCommentLike pg_backend (Some ''p1'') ''c1'' (example_world None)
       = (Inl AuthenticationError, example_world None)
   \<and> createComment pg_backend (Some ''p1'') ''hello'' None (example_world None)
       = (Inl AuthenticationError, example_world None)"
proof -
  have h1: "auth_getUser pg_backend (store (example_world None)) = None"
    by (simp add: example_defs)
  have h2: "truthy (Some ''p1'')" by (simp add: truthy_def)
  from unauthenticated_calls_fail_before_any_request
         [OF h1, of "Some ''p1''" "''c1''" "''hello''" None] h1 h2
  show ?thesis by simp
qed

lemma toggleCommentLike_never_rejects:
  "auth_getUser b (store w) = Some uid \<Longrightarrow> fst (toggleCommentLike b postId commentId w) = Inr ()"
  by (simp add: toggleCommentLike_def Let_def)

text \<open>
  Claim C7 says that \<^verbatim>\<open>toggleCommentLike\<close> surfaces an error when the store rejects the
  insert or the delete of the like record. The code drops the responses of both: here the
  store rejects the insert (the comment does not exist, a foreign-key violation), and the
  operation goes on to refetch and returns normally.
\<close>
theorem toggleCommentLike_swallows_rejected_insert:
  "fst (pg_insert_like ''c9'' ''u1'' (example_db (Some ''u1'')))
     = rejected ''23503 violates foreign key constraint''
   \<and> fst (toggleCommentLike pg_backend (Some ''p1'') ''c9'' (example_world (Some ''u1''))) = Inr ()
   \<and> trace (snd (toggleCommentLike pg_backend (Some ''p1'') ''c9'' (example_world (Some ''u1''))))
       = [SelectLike ''c9'' ''u1'', InsertLike ''c9'' ''u1'', SelectComments ''p1'']"
  by (simp add: toggleCommentLike_def fetchComments_def truthy_def Let_def
                pg_select_like_single_def pg_insert_like_def pg_select_comments_def example_defs)

lemma comments_fetchComments:
  "comments (fetchComments b postId w) = comments w
   \<or> (\<exists>p. postId = Some p \<and> p \<noteq> [] \<and> error (fst (select_comments b p (store w))) = None
          \<and> comments (fetchComments b postId w)
              = buildTree (case data (fst (select_comments b p (store w))) of
                             None \<Rightarrow> [] | Some rows \<Rightarrow> rows))"
  by (auto simp: fetchComments_def truthy_def Let_def split: option.splits)

text \<open>
  Claim C8. Whatever the store does: when \<^verbatim>\<open>createComment\<close>, \<^verbatim>\<open>deleteComment\<close> or
  \<^verbatim>\<open>toggleCommentLike\<close> fails with an error, the \<^verbatim>\<open>comments\<close> state is what it was before
  the call; and \<^verbatim>\<open>fetchComments\<close> either leaves \<^verbatim>\<open>comments\<close> as it was or replaces it by
  the tree built from a select that reported no error.
\<close>
theorem failed_mutation_keeps_comments:
  "(fst (createComment b postId text parentId w) = Inl e1
      \<longrightarrow> comments (snd (createComment b postId text parentId w)) = comments w)
   \<and> (fst (deleteComment b postId commentId w) = Inl e2
      \<longrightarrow> comments (snd (deleteComment b postId commentId w)) = comments w)
   \<and> (fst (toggleCommentLike b postId commentId w) = Inl e3
      \<longrightarrow> comments (snd (toggleCommentLike b postId commentId w)) = comments w)
   \<and> (comments (fetchComments b postId w) = comments w
      \<or> (\<exists>p. postId = Some p \<and> error (fst (select_comments b p (store w))) = None
             \<and> comments (fetchComments b postId w)
                 = buildTree (case data (fst (select_comments b p (store w))) of
                                None \<Rightarrow> [] | Some rows \<Rightarrow> rows)))"
proof -
  have 1: "fst (createComment b postId text parentId w) = Inl e1
           \<longrightarrow> comments (snd (createComment b postId text parentId w)) = comments w"
    by (auto simp: createComment_def Let_def split: option.splits if_splits)
  have 2: "fst (deleteComment b postId commentId w) = Inl e2
           \<longrightarrow> comments (snd (deleteComment b postId commentId w)) = comments w"
    by (auto simp: deleteComment_def Let_def split: option.splits)
  have 3: "fst (toggleCommentLike b postId commentId w) = Inl e3
           \<longrightarrow> comments (snd (toggleCommentLike b postId commentId w)) = comments w"
    by (auto simp: toggleCommentLike_def Let_def split: option.splits)
  from comments_fetchComments [of b postId w]
  have 4: "comments (fetchComments b postId w) = comments w
      \<or> (\<exists>p. postId = Some p \<and> error (fst (select_comments b p (store w))) = None
             \<and> comments (fetchComments b postId w)
                 = buildTree (case data (fst (select_comments b p (store w))) of
                                None \<Rightarrow> [] | Some rows \<Rightarrow> rows))"
    by blast
  from 1 2 3 4 show ?thesis by blast
qed

text \<open>The theorem of C8 on a store that cannot be reached: all three mutations fail.\<close>
theorem failed_mutation_keeps_comments_witness:
  "fst (createComment unreachable (Some ''p1'') ''hello'' None offline_world) = Inl AuthenticationError
   \<and> fst (deleteComment unreachable (Some ''p1'') ''c1'' offline_world)
       = Inl (StoreError (PostgrestError ''Failed to fetch''))
   \<and> fst (toggleCommentLike unreachable (Some ''p1'') ''c1'' offline_world) = Inl AuthenticationError
   \<and> comments (snd (createComment unreachable (Some ''p1'') ''hello'' None offline_world))
       = buildTree thread_example
   \<and> comments (snd (deleteComment unreachable (Some ''p1'') ''c1'' offline_world))
       = buildTree thread_example
   \<and> comments (snd (toggleCommentLike unreachable (Some ''p1'') ''c1'' offline_world))
       = buildTree thread_example"
proof -
  have h1: "fst (createComment unreachable (Some ''p1'') ''hello'' None offline_world)
            = Inl AuthenticationError"
    by (simp add: createComment_def truthy_def unreachable_def)
  have h2: "fst (deleteComment unreachable (Some ''p1'') ''c1'' offline_world)
            = Inl (StoreError (PostgrestError ''Failed to fetch''))"
    by (simp add: deleteComment_def unreachable_def rejected_def Let_def)
  have h3: "fst (toggleCommentLike unreachable (Some ''p1'') ''c1'' offline_world)
            = Inl AuthenticationError"
    by (simp add: toggleCommentLike_def unreachable_def)
  have c: "comments offline_world = buildTree thread_example"
    by (simp add: offline_world_def)
  from failed_mutation_keeps_comments
         [of unreachable "Some ''p1''" "''hello''" None offline_world AuthenticationError
             "''c1''" "StoreError (PostgrestError ''Failed to fetch'')" AuthenticationError]
       h1 h2 h3 c
  show ?thesis by simp
qed

section \<open>Cascading deletion\<close>

lemma cascade_subset: "set (cascade dead rows) \<subseteq> set rows"
proof (induction dead rows rule: cascade.induct)
  case (1 dead rows)
  show ?case
  proof (cases "filter (parent_in dead) rows = []")
    case True
    then show ?thesis by (subst cascade.simps) simp
  next
    case False
    with "1.IH" have "set (cascade (map id' (filter (parent_in dead) rows))
                             (filter (\<lambda>r. \<not> parent_in dead r) rows))
                      \<subseteq> set (filter (\<lambda>r. \<not> parent_in dead r) rows)"
      by simp
    with False show ?thesis by (subst cascade.simps) auto
  qed
qed

lemma cascade_no_child_of_dead:
  "r \<in> set (cascade dead rows) \<Longrightarrow> \<not> parent_in dead r"
proof (induction dead rows rule: cascade.induct)
  case (1 dead rows)
  show ?case
  proof (cases "filter (parent_in dead) rows = []")
    case True
    with "1.prems" have "r \<in> set rows" by (subst (asm) cascade.simps) simp
    with True show ?thesis by (auto simp: filter_empty_conv)
  next
    case False
    with "1.prems" have "r \<in> set (cascade (map id' (filter (parent_in dead) rows))
                                      (filter (\<lambda>r. \<not> parent_in dead r) rows))"
      by (subst (asm) cascade.simps) simp
    then have "r \<in> set (filter (\<lambda>r. \<not> parent_in dead r) rows)"
      using cascade_subset by blast
    then show ?thesis by simp
  qed
qed

lemma cascade_keeps_parents:
  "r \<in> set (cascade dead rows) \<Longrightarrow> q \<in> set rows \<Longrightarrow> parent_id r = Some (id' q)
   \<Longrightarrow> q \<in> set (cascade dead rows)"
proof (induction dead rows rule: cascade.induct)
  case (1 dead rows)
  show ?case
  proof (cases "filter (parent_in dead) rows = []")
    case True
    with "1.prems"(2) show ?thesis by (subst cascade.simps) simp
  next
    case False
    let ?dead' = "map id' (filter (parent_in dead) rows)"
    let ?rows' = "filter (\<lambda>r. \<not> parent_in dead r) rows"
    from False "1.prems"(1) have r: "r \<in> set (cascade ?dead' ?rows')"
      by (subst (asm) cascade.simps) simp
    have "q \<in> set ?rows'"
    proof (rule ccontr)
      assume "q \<notin> set ?rows'"
      with "1.prems"(2) have "id' q \<in> set ?dead'" by auto
      with "1.prems"(3) have "parent_in ?dead' r" by (simp add: parent_in_def)
      with cascade_no_child_of_dead [OF r] show False by simp
    qed
    with "1.IH" [OF False r _ "1.prems"(3)] have "q \<in> set (cascade ?dead' ?rows')" by simp
    with False show ?thesis by (subst cascade.simps) simp
  qed
qed

text \<open>What \<open>pg_delete_comment\<close> leaves of the table when the user owns the row.\<close>

lemma pg_delete_comment_owner:
  assumes "c \<in> set (comments_tbl db)" and "auth_uid db = Some (author_id c)"
  shows "fst (pg_delete_comment (id' c) db) = None"
    and "comments_tbl (snd (pg_delete_comment (id' c) db))
         = cascade [id' c] (filter (\<lambda>r. \<not> (id' r = id' c \<and> auth_uid db = Some (author_id r)))
                                   (comments_tbl db))"
proof -
  from assms have "filter (\<lambda>r. id' r = id' c \<and> auth_uid db = Some (author_id r)) (comments_tbl db) \<noteq> []"
    by (auto simp: filter_empty_conv)
  then show "comments_tbl (snd (pg_delete_comment (id' c) db))
         = cascade [id' c] (filter (\<lambda>r. \<not> (id' r = id' c \<and> auth_uid db = Some (author_id r)))
                                   (comments_tbl db))"
    by (simp add: pg_delete_comment_def Let_def)
  show "fst (pg_delete_comment (id' c) db) = None"
    by (simp add: pg_delete_comment_def Let_def)
qed

lemma pg_delete_comment_removes_subtree:
  assumes own: "c \<in> set (comments_tbl db)" "auth_uid db = Some (author_id c)"
    and d: "d \<in> set (comments_tbl db)" and chain: "leads_to (comments_tbl db) n d (id' c)"
  shows "c \<notin> set (comments_tbl (snd (pg_delete_comment (id' c) db)))"
    and "d \<notin> set (comments_tbl (snd (pg_delete_comment (id' c) db)))"
proof -
  let ?hit = "\<lambda>r. id' r = id' c \<and> auth_uid db = Some (author_id r)"
  let ?rest = "filter (\<lambda>r. \<not> ?hit r) (comments_tbl db)"
  let ?kept = "cascade [id' c] ?rest"
  have kept: "comments_tbl (snd (pg_delete_comment (id' c) db)) = ?kept"
    using own by (rule pg_delete_comment_owner)
  have "c \<notin> set ?rest" using own by simp
  then have c: "c \<notin> set ?kept" using cascade_subset by blast
  have "d \<notin> set ?kept" using d chain
  proof (induction n arbitrary: d)
    case 0
    then show ?case by simp
  next
    case (Suc n)
    from Suc.prems(2) obtain p where p: "parent_id d = Some p"
      and alt: "p = id' c \<or> (\<exists>e \<in> set (comments_tbl db). id' e = p \<and> leads_to (comments_tbl db) n e (id' c))"
      by (auto simp: list_ex_iff split: option.splits)
    show ?case
    proof
      assume kept_d: "d \<in> set ?kept"
      have direct: "p \<noteq> id' c"
      proof
        assume "p = id' c"
        with p have "parent_in [id' c] d" by (simp add: parent_in_def)
        with cascade_no_child_of_dead [OF kept_d] show False by simp
      qed
      with alt obtain e where e: "e \<in> set (comments_tbl db)" "id' e = p"
        "leads_to (comments_tbl db) n e (id' c)" by blast
      from e(2) direct have "e \<in> set ?rest" using e(1) by simp
      from cascade_keeps_parents [OF kept_d this] p e(2) have "e \<in> set ?kept" by simp
      with Suc.IH [OF e(1) e(3)] show False by simp
    qed
  qed
  with c kept show "c \<notin> set (comments_tbl (snd (pg_delete_comment (id' c) db)))"
    and "d \<notin> set (comments_tbl (snd (pg_delete_comment (id' c) db)))"
    by simp_all
qed

lemma pg_delete_comment_subset:
  "set (comments_tbl (snd (pg_delete_comment cid db))) \<subseteq> set (comments_tbl db)"
proof -
  have "set (cascade [cid] (filter P (comments_tbl db))) \<subseteq> set (comments_tbl db)" for P
    using cascade_subset [of "[cid]" "filter P (comments_tbl db)"] by auto
  then show ?thesis by (auto simp: pg_delete_comment_def Let_def)
qed

lemma id_join_profile [simp]: "id' (join_profile db r) = id' r"
  by (simp add: join_profile_def)

lemma ids_listComments: "id' ` set (listComments p db) \<subseteq> id' ` set (comments_tbl db)"
  by (auto simp: listComments_def pg_select_comments_def)

lemma pg_backend_simps [simp]:
  "auth_getUser pg_backend = auth_uid"
  "select_comments pg_backend = pg_select_comments"
  "insert_comment pg_backend = pg_insert_comment"
  "delete_comment pg_backend = pg_delete_comment"
  "select_like_single pg_backend = pg_select_like_single"
  "delete_like pg_backend = pg_delete_like"
  "insert_like pg_backend = pg_insert_like"
  by (simp_all add: pg_backend_def)

lemma store_fetchComments_pg [simp]: "store (fetchComments pg_backend postId w) = store w"
  by (simp add: fetchComments_def pg_select_comments_def Let_def split: option.splits)

lemma writes_fetchComments [simp]:
  "filter is_write (trace (fetchComments b postId w)) = filter is_write (trace w)"
  by (simp add: fetchComments_def Let_def split: option.splits)

text \<open>
  Claim C9. In a database with unique comment ids, when the user of the session owns the
  comment \<open>c\<close> and the parent chain of the comment \<open>d\<close> leads to \<open>c\<close>,
  \<^verbatim>\<open>deleteComment(c.id)\<close> succeeds, the only write the client sends is the delete of
  \<open>c\<close> by id, and afterwards no \<^verbatim>\<open>listComments\<close> returns a row with the id of \<open>c\<close> or
  of \<open>d\<close>: the cascade is done by the store.
\<close>
theorem deleteComment_removes_subtree:
  assumes "distinct (map id' (comments_tbl (store w)))"
    and "c \<in> set (comments_tbl (store w))"
    and "auth_uid (store w) = Some (author_id c)"
    and "d \<in> set (comments_tbl (store w))"
    and "leads_to (comments_tbl (store w)) n d (id' c)"
  shows "fst (deleteComment pg_backend postId (id' c) w) = Inr ()
       \<and> filter is_write (trace (snd (deleteComment pg_backend postId (id' c) w)))
           = filter is_write (trace w) @ [DeleteComment (id' c)]
       \<and> (\<forall>p. id' c \<notin> id' ` set (listComments p (store (snd (deleteComment pg_backend postId (id' c) w))))
              \<and> id' d \<notin> id' ` set (listComments p (store (snd (deleteComment pg_backend postId (id' c) w)))))"
proof -
  let ?db = "store w"
  let ?db' = "snd (pg_delete_comment (id' c) ?db)"
  have ok: "fst (pg_delete_comment (id' c) ?db) = None"
    using assms(2,3) by (rule pg_delete_comment_owner)
  have res: "fst (deleteComment pg_backend postId (id' c) w) = Inr ()"
    using ok by (simp add: deleteComment_def Let_def)
  have st: "store (snd (deleteComment pg_backend postId (id' c) w)) = ?db'"
    using ok by (simp add: deleteComment_def Let_def)
  have tr: "filter is_write (trace (snd (deleteComment pg_backend postId (id' c) w)))
            = filter is_write (trace w) @ [DeleteComment (id' c)]"
    using ok by (simp add: deleteComment_def Let_def)
  have d_rows: "d \<in> set (comments_tbl ?db)" by (rule assms(4))
  have gone: "id' x \<notin> id' ` set (comments_tbl ?db')"
    if x: "x \<in> set (comments_tbl ?db)" "x \<notin> set (comments_tbl ?db')" for x
  proof
    assume "id' x \<in> id' ` set (comments_tbl ?db')"
    then obtain y where y: "y \<in> set (comments_tbl ?db')" "id' y = id' x" by auto
    then have "y \<in> set (comments_tbl ?db)" using pg_delete_comment_subset by blast
    with assms(1) x(1) y(2) have "y = x" by (auto simp: distinct_map inj_on_def)
    with y(1) x(2) show False by simp
  qed
  have "id' c \<notin> id' ` set (comments_tbl ?db')"
    using assms(2) pg_delete_comment_removes_subtree(1) [OF assms(2,3,4,5)] by (rule gone)
  moreover have "id' d \<notin> id' ` set (comments_tbl ?db')"
    using d_rows pg_delete_comment_removes_subtree(2) [OF assms(2,3,4,5)] by (rule gone)
  ultimately have "id' c \<notin> id' ` set (listComments p ?db') \<and> id' d \<notin> id' ` set (listComments p ?db')" for p
    using ids_listComments [of p ?db'] by blast
  with res tr st show ?thesis by simp
qed

text \<open>The theorem of C9 on the example database: \<^verbatim>\<open>u1\<close> deletes \<^verbatim>\<open>c1\<close>, and \<^verbatim>\<open>c3\<close> goes with it.\<close>
theorem deleteComment_removes_subtree_witness:
  "distinct (map id' (comments_tbl (store (example_world (Some ''u1'')))))
   \<and> stored ''c1'' ''u1'' None 1 \<in> set (comments_tbl (store (example_world (Some ''u1''))))
   \<and> auth_uid (store (example_world (Some ''u1''))) = Some (author_id (stored ''c1'' ''u1'' None 1))
   \<and> stored ''c3'' ''u1'' (Some ''c2'') 3 \<in> set (comments_tbl (store (example_world (Some ''u1''))))
   \<and> leads_to (comments_tbl (store (example_world (Some ''u1'')))) 2
        (stored ''c3'' ''u1'' (Some ''c2'') 3) ''c1''
   \<and> fst (deleteComment pg_backend (Some ''p1'') ''c1'' (example_world (Some ''u1''))) = Inr ()
   \<and> ''c1'' \<notin> id' ` set (listComments ''p1''
        (store (snd (deleteComment pg_backend (Some ''p1'') ''c1'' (example_world (Some ''u1''))))))
   \<and> ''c3'' \<notin> id' ` set (listComments ''p1''
        (store (snd (deleteComment pg_backend (Some ''p1'') ''c1'' (example_world (Some ''u1''))))))"
proof -
  let ?w = "example_world (Some ''u1'')"
  let ?c = "stored ''c1'' ''u1'' None 1"
  let ?d = "stored ''c3'' ''u1'' (Some ''c2'') 3"
  have i: "id' ?c = ''c1''" "id' ?d = ''c3''" by (simp_all add: stored_def)
  have h1: "distinct (map id' (comments_tbl (store ?w)))" by (simp add: example_defs)
  have h2: "?c \<in> set (comments_tbl (store ?w))" by (simp add: example_defs)
  have h3: "auth_uid (store ?w) = Some (author_id ?c)" by (simp add: example_defs)
  have h4: "?d \<in> set (comments_tbl (store ?w))" by (simp add: example_defs)
  have h5: "leads_to (comments_tbl (store ?w)) 2 ?d (id' ?c)"
    by (simp add: example_defs numeral_2_eq_2)
  from deleteComment_removes_subtree [OF h1 h2 h3 h4 h5, of "Some ''p1''"] h1 h2 h3 h4 h5
  show ?thesis unfolding i by blast
qed

section \<open>The like count\<close>

text \<open>
  The \<^verbatim>\<open>UPDATE\<close> of the trigger changes nothing when the user of the session wrote none
  of the comments it names.
\<close>

lemma update_comment_likes_count_not_author:
  assumes "\<forall>r \<in> set (comments_tbl db). id' r = cid \<longrightarrow> auth_uid db \<noteq> Some (author_id r)"
  shows "update_comment_likes_count op cid db = db"
proof -
  have "map (\<lambda>r. if id' r = cid \<and> auth_uid db = Some (author_id r)
                  then r\<lparr>likes_count := likes_count r + (case op of INSERT \<Rightarrow> 1 | DELETE \<Rightarrow> - 1),
                         updated_at := clock db\<rparr>
                  else r) (comments_tbl db) = comments_tbl db"
    using assms by (intro map_idI) auto
  then show ?thesis by (simp add: update_comment_likes_count_def)
qed

lemma fold_update_comment_likes_count_not_author:
  assumes "\<forall>l \<in> set ls. \<forall>r \<in> set (comments_tbl db).
             id' r = like_comment_id l \<longrightarrow> auth_uid db \<noteq> Some (author_id r)"
  shows "fold (\<lambda>l. update_comment_likes_count op (like_comment_id l)) ls db = db"
  using assms
proof (induction ls)
  case Nil
  show ?case by simp
next
  case (Cons l ls)
  then have "update_comment_likes_count op (like_comment_id l) db = db"
    by (intro update_comment_likes_count_not_author) simp
  with Cons show ?case by simp
qed

lemma pg_insert_like_other_author:
  assumes "\<forall>r \<in> set (comments_tbl db). id' r = c \<longrightarrow> auth_uid db \<noteq> Some (author_id r)"
  shows "comments_tbl (snd (pg_insert_like c u db)) = comments_tbl db"
proof -
  let ?db1 = "db\<lparr>comment_likes_tbl := comment_likes_tbl db @
                   [\<lparr>like_id = uuid_gen db (uuid_drawn db), like_comment_id = c, like_user_id = u,
                     like_created_at = clock db\<rparr>],
                 uuid_drawn := Suc (uuid_drawn db)\<rparr>"
  have "update_comment_likes_count INSERT c ?db1 = ?db1"
    using assms by (intro update_comment_likes_count_not_author) simp
  then show ?thesis by (simp add: pg_insert_like_def Let_def)
qed

lemma pg_delete_like_other_author:
  assumes "\<forall>l \<in> set (comment_likes_tbl db). like_id l = lid \<longrightarrow> like_comment_id l = c"
    and "\<forall>r \<in> set (comments_tbl db). id' r = c \<longrightarrow> auth_uid db \<noteq> Some (author_id r)"
  shows "comments_tbl (snd (pg_delete_like lid db)) = comments_tbl db"
proof -
  let ?hit = "\<lambda>l. like_id l = lid \<and> auth_uid db = Some (like_user_id l)"
  let ?db1 = "db\<lparr>comment_likes_tbl := filter (\<lambda>l. \<not> ?hit l) (comment_likes_tbl db)\<rparr>"
  have "fold (\<lambda>l. update_comment_likes_count DELETE (like_comment_id l))
             (filter ?hit (comment_likes_tbl db)) ?db1 = ?db1"
    using assms by (intro fold_update_comment_likes_count_not_author) auto
  then show ?thesis by (simp add: pg_delete_like_def Let_def)
qed

lemma pg_select_like_single_Some:
  assumes "data (fst (pg_select_like_single c u db)) = Some lid"
    and "distinct (map like_id (comment_likes_tbl db))"
    and "l \<in> set (comment_likes_tbl db)" and "like_id l = lid"
  shows "like_comment_id l = c"
proof -
  from assms(1) obtain l' where l': "filter (\<lambda>l. like_comment_id l = c \<and> like_user_id l = u)
      (comment_likes_tbl db) = [l']" "like_id l' = lid"
    by (auto simp: pg_select_like_single_def split: list.splits)
  then have "l' \<in> set (filter (\<lambda>l. like_comment_id l = c \<and> like_user_id l = u) (comment_likes_tbl db))"
    by simp
  then have in': "l' \<in> set (comment_likes_tbl db)" and c': "like_comment_id l' = c" by simp_all
  from assms(2,3,4) in' l'(2) have "l = l'" by (auto simp: distinct_map inj_on_def)
  with c' show ?thesis by simp
qed

lemma store_select_like_single [simp]: "snd (pg_select_like_single c u db) = db"
  by (simp add: pg_select_like_single_def split: list.splits)

text \<open>
  A toggle by a user who is not the author of the comment leaves every row of
  \<^verbatim>\<open>comments\<close>, and so every \<^verbatim>\<open>likes_count\<close>, as it was.
\<close>

lemma toggleCommentLike_other_author_keeps_counts:
  assumes "auth_uid (store w) = Some u"
    and "distinct (map like_id (comment_likes_tbl (store w)))"
    and "\<forall>r \<in> set (comments_tbl (store w)). id' r = c \<longrightarrow> author_id r \<noteq> u"
  shows "comments_tbl (store (snd (toggleCommentLike pg_backend postId c w))) = comments_tbl (store w)"
proof -
  have na: "\<forall>r \<in> set (comments_tbl (store w)). id' r = c \<longrightarrow> auth_uid (store w) \<noteq> Some (author_id r)"
    using assms(1,3) by auto
  show ?thesis
  proof (cases "data (fst (pg_select_like_single c u (store w)))")
    case None
    with assms(1) na show ?thesis
      by (simp add: toggleCommentLike_def Let_def pg_insert_like_other_author)
  next
    case (Some lid)
    have "\<forall>l \<in> set (comment_likes_tbl (store w)). like_id l = lid \<longrightarrow> like_comment_id l = c"
      using pg_select_like_single_Some [OF Some assms(2)] by blast
    then have "comments_tbl (snd (pg_delete_like lid (store w))) = comments_tbl (store w)"
      using na by (rule pg_delete_like_other_author)
    with assms(1) Some show ?thesis
      by (simp add: toggleCommentLike_def Let_def)
  qed
qed

text \<open>When the author likes the own comment, the count does move.\<close>

lemma toggleCommentLike_count_updated_for_author:
  "reported_likes_count ''c1'' (listComments ''p1''
     (store (snd (toggleCommentLike pg_backend (Some ''p1'') ''c1'' (example_world (Some ''u1''))))))
   = [1]"
  by (simp add: toggleCommentLike_def fetchComments_def truthy_def Let_def
                pg_select_like_single_def pg_insert_like_def pg_select_comments_def
                update_comment_likes_count_def listComments_def reported_likes_count_def
                join_profile_def example_world_def example_db_def stored_def member_def)

lemma likes_update_comment_likes_count [simp]:
  "comment_likes_tbl (update_comment_likes_count op cid db) = comment_likes_tbl db"
  by (simp add: update_comment_likes_count_def)

lemma likes_fold_update_comment_likes_count [simp]:
  "comment_likes_tbl (fold (\<lambda>l. update_comment_likes_count op (like_comment_id l)) ls db)
   = comment_likes_tbl db"
  by (induction ls arbitrary: db) simp_all

lemma likers_iff:
  "u \<in> set (likers c db)
   \<longleftrightarrow> filter (\<lambda>l. like_comment_id l = c \<and> like_user_id l = u) (comment_likes_tbl db) \<noteq> []"
  by (auto simp: likers_def filter_empty_conv)

lemma unique_pair_filter:
  assumes "distinct (map (\<lambda>l. (like_comment_id l, like_user_id l)) ls)"
  shows "length (filter (\<lambda>l. like_comment_id l = c \<and> like_user_id l = u) ls) \<le> 1"
  using assms
proof (induction ls)
  case Nil
  show ?case by simp
next
  case (Cons l ls)
  show ?case
  proof (cases "like_comment_id l = c \<and> like_user_id l = u")
    case True
    with Cons.prems have "filter (\<lambda>l. like_comment_id l = c \<and> like_user_id l = u) ls = []"
      by (auto simp: filter_empty_conv image_iff)
    with True show ?thesis by simp
  next
    case False
    from Cons.prems have "distinct (map (\<lambda>l. (like_comment_id l, like_user_id l)) ls)" by simp
    from Cons.IH [OF this] False show ?thesis by auto
  qed
qed

text \<open>
  The like record itself is toggled: in a database that satisfies the constraints of
  \<^verbatim>\<open>comment_likes\<close>, after a toggle the user has a like record for the comment exactly when
  there was none before.
\<close>

lemma toggleCommentLike_flips_like_record:
  assumes auth: "auth_uid (store w) = Some u"
    and fk: "c \<in> set (map id' (comments_tbl (store w)))"
            "u \<in> set (map profile_id (profiles_tbl (store w)))"
    and pk: "distinct (map like_id (comment_likes_tbl (store w)))"
    and uq: "distinct (map (\<lambda>l. (like_comment_id l, like_user_id l)) (comment_likes_tbl (store w)))"
    and fresh: "uuid_gen (store w) (uuid_drawn (store w)) \<notin> set (map like_id (comment_likes_tbl (store w)))"
  shows "u \<in> set (likers c (store (snd (toggleCommentLike pg_backend postId c w))))
         \<longleftrightarrow> u \<notin> set (likers c (store w))"
proof -
  let ?db = "store w"
  let ?P = "\<lambda>l. like_comment_id l = c \<and> like_user_id l = u"
  from unique_pair_filter [OF uq, of c u]
  consider "filter ?P (comment_likes_tbl ?db) = []"
    | l where "filter ?P (comment_likes_tbl ?db) = [l]"
    by (cases "filter ?P (comment_likes_tbl ?db)") (auto simp: Suc_le_eq)
  then show ?thesis
  proof cases
    case 1
    then have sel: "data (fst (pg_select_like_single c u ?db)) = None"
      by (simp add: pg_select_like_single_def)
    from 1 have nopair: "(c, u) \<notin> set (map (\<lambda>l. (like_comment_id l, like_user_id l)) (comment_likes_tbl ?db))"
      by (auto simp: filter_empty_conv)
    have "comment_likes_tbl (snd (pg_insert_like c u ?db))
          = comment_likes_tbl ?db @ [\<lparr>like_id = uuid_gen ?db (uuid_drawn ?db), like_comment_id = c,
                                       like_user_id = u, like_created_at = clock ?db\<rparr>]"
      using auth fk nopair fresh by (simp add: pg_insert_like_def Let_def)
    then have "u \<in> set (likers c (snd (pg_insert_like c u ?db)))"
      by (simp add: likers_def)
    moreover from 1 have "u \<notin> set (likers c ?db)" by (simp add: likers_iff)
    ultimately show ?thesis
      using auth sel by (simp add: toggleCommentLike_def Let_def)
  next
    case 2
    then have sel: "data (fst (pg_select_like_single c u ?db)) = Some (like_id l)"
      by (simp add: pg_select_like_single_def)
    from 2 have "l \<in> set (filter ?P (comment_likes_tbl ?db))" by simp
    then have l: "l \<in> set (comment_likes_tbl ?db)" "like_comment_id l = c" "like_user_id l = u"
      by simp_all
    have "filter ?P (comment_likes_tbl (snd (pg_delete_like (like_id l) ?db))) = []"
    proof -
      have "x = l" if "x \<in> set (comment_likes_tbl ?db)" "?P x" for x
      proof -
        from that have "x \<in> set (filter ?P (comment_likes_tbl ?db))" by simp
        with 2 show ?thesis by simp
      qed
      moreover have "comment_likes_tbl (snd (pg_delete_like (like_id l) ?db))
            = filter (\<lambda>x. \<not> (like_id x = like_id l \<and> auth_uid ?db = Some (like_user_id x)))
                     (comment_likes_tbl ?db)"
        by (simp add: pg_delete_like_def Let_def)
      ultimately show ?thesis
        using auth l(3) by (simp add: filter_empty_conv) blast
    qed
    then have "u \<notin> set (likers c (snd (pg_delete_like (like_id l) ?db)))"
      by (simp add: likers_iff)
    moreover from 2 have "u \<in> set (likers c ?db)" by (simp add: likers_iff)
    ultimately show ?thesis
      using auth sel by (simp add: toggleCommentLike_def Let_def)
  qed
qed

text \<open>
  Claim C6 says that a toggle by a user without a like inserts the like record and that the
  \<^verbatim>\<open>likes_count\<close> of the comment, as the next fetch reports it, goes up by one. On the
  example database the user \<^verbatim>\<open>u2\<close> likes the comment \<^verbatim>\<open>c1\<close> of \<^verbatim>\<open>u1\<close>: the like record
  is inserted, and the count that the refetch of the hook and any later \<^verbatim>\<open>listComments\<close>
  report is still 0, since the \<^verbatim>\<open>UPDATE\<close> of the trigger is confined to the comments of
  \<^verbatim>\<open>u2\<close>.
\<close>
theorem toggleCommentLike_count_not_updated:
  "map author_id (filter (\<lambda>r. id' r = ''c1'') (comments_tbl (example_db (Some ''u2'')))) = [''u1'']
   \<and> likers ''c1'' (example_db (Some ''u2'')) = []
   \<and> reported_likes_count ''c1'' (listComments ''p1'' (example_db (Some ''u2''))) = [0]
   \<and> fst (toggleCommentLike pg_backend (Some ''p1'') ''c1'' (example_world (Some ''u2''))) = Inr ()
   \<and> likers ''c1''
        (store (snd (toggleCommentLike pg_backend (Some ''p1'') ''c1'' (example_world (Some ''u2'')))))
      = [''u2'']
   \<and> reported_likes_count ''c1''
        (map comment_of (objects (comments
           (snd (toggleCommentLike pg_backend (Some ''p1'') ''c1'' (example_world (Some ''u2'')))))))
      = [0]
   \<and> reported_likes_count ''c1'' (listComments ''p1''
        (store (snd (toggleCommentLike pg_backend (Some ''p1'') ''c1'' (example_world (Some ''u2''))))))
      = [0]"
  by (simp add: toggleCommentLike_def fetchComments_def truthy_def Let_def objects_buildTree
                pg_select_like_single_def pg_insert_like_def pg_select_comments_def
                update_comment_likes_count_def listComments_def likers_def reported_likes_count_def
                join_profile_def example_world_def example_db_def stored_def member_def)

end
